theory Spec2Isabelle
  imports Main
begin

section \<open>The annotated source-code table model of hotspot\<close>

text \<open>
  A shallow embedding of \<^verbatim>\<open>src/models/sourcecodemodel.cpp\<close>. The member functions of
  \<^verbatim>\<open>SourceCodeModel\<close> become functions on a record of its members; a function that
  mutates the object returns the updated record. Reads that C++ leaves undefined (an
  index outside a \<^verbatim>\<open>QList\<close>, a call through the null layout of an invalid text block,
  a signed overflow) are results \<open>Inl e\<close>.
\<close>

subsection \<open>Machine integers and failures\<close>

definition INT_MAX :: int where
  "INT_MAX = 2147483647"

definition INT_MIN :: int where
  "INT_MIN = - 2147483648"

datatype error = OutOfRange | NullLayout | SignedOverflow

text \<open>Addition of two \<^verbatim>\<open>int\<close>s; leaving the 32-bit range is undefined in C++.\<close>

definition int_add :: "int \<Rightarrow> int \<Rightarrow> error + int" where
  "int_add a b =
     (if INT_MIN \<le> a + b \<and> a + b \<le> INT_MAX then Inr (a + b) else Inl SignedOverflow)"

text \<open>\<^verbatim>\<open>QList::operator[]\<close> and \<^verbatim>\<open>QList::at\<close>: the index must lie in \<open>[0, size)\<close>.\<close>

definition list_at :: "'a list \<Rightarrow> int \<Rightarrow> error + 'a" where
  "list_at xs i = (if 0 \<le> i \<and> i < int (length xs) then Inr (xs ! nat i) else Inl OutOfRange)"

subsection \<open>Strings\<close>

text \<open>\<^verbatim>\<open>QString::split(sep)\<close> with the default \<^verbatim>\<open>KeepEmptyParts\<close>: never an empty list.\<close>

fun qsplit :: "char \<Rightarrow> string \<Rightarrow> string list" where
  "qsplit sep [] = [[]]"
| "qsplit sep (c # cs) =
     (if c = sep then [] # qsplit sep cs
      else (case qsplit sep cs of
              [] \<Rightarrow> [[c]]
            | w # ws \<Rightarrow> (c # w) # ws))"

definition newline :: char where
  "newline = CHR 0x0A"

text \<open>\<^verbatim>\<open>QString::contains(QLatin1Char('('))\<close>.\<close>

definition contains_paren :: "string \<Rightarrow> bool" where
  "contains_paren s = (CHR ''('' \<in> set s)"

subsection \<open>The line-cost aggregator\<close>

text \<open>
  Modelled from the spec: the class \<^verbatim>\<open>Data::Costs\<close> (\<^verbatim>\<open>data.h\<close>), the type of
  \<^verbatim>\<open>m_costs\<close> and of \<^verbatim>\<open>selfCosts\<close>, is not among the sources. The spec, section 4.1:
  \<open>initialize(costTypes)\<close> resets all per-type totals to zero and establishes the type
  count; \<open>add(lineNumber, costRecord)\<close> adds each of the record's per-type values to that
  line's running total and to that type's grand total; \<open>cost(typeIndex, lineNumber)\<close>
  returns the accumulated value, 0 if absent; \<open>totalCost(typeIndex)\<close> returns the grand
  total of a type. A cost record is the list of its per-type values.
\<close>

record Costs =
  typeNames :: "string list"
  totalCosts :: "nat list"
  lineCosts :: "int \<rightharpoonup> nat list"

text \<open>The value of a type in a cost record; a type the record does not hold counts 0.\<close>

definition value_of :: "nat list \<Rightarrow> int \<Rightarrow> nat" where
  "value_of xs t = (if 0 \<le> t \<and> t < int (length xs) then xs ! nat t else 0)"

text \<open>Adding a cost record to accumulated values, type by type.\<close>

fun add_values :: "nat list \<Rightarrow> nat list \<Rightarrow> nat list" where
  "add_values [] ys = ys"
| "add_values (x # xs) [] = x # xs"
| "add_values (x # xs) (y # ys) = (x + y) # add_values xs ys"

text \<open>Modelled from the spec: a default-constructed \<^verbatim>\<open>Costs\<close>, as in \<^verbatim>\<open>m_costs = {}\<close>.\<close>

definition Costs_empty :: Costs where
  "Costs_empty = \<lparr>typeNames = [], totalCosts = [], lineCosts = Map.empty\<rparr>"

text \<open>Modelled from the spec: \<open>initialize\<close>, called \<^verbatim>\<open>initializeCostsFrom\<close> in the source.\<close>

definition Costs_initializeCostsFrom :: "Costs \<Rightarrow> Costs \<Rightarrow> Costs" where
  "Costs_initializeCostsFrom rhs c =
     \<lparr>typeNames = typeNames rhs,
      totalCosts = replicate (length (typeNames rhs)) 0,
      lineCosts = Map.empty\<rparr>"

text \<open>Modelled from the spec: \<open>add(lineNumber, costRecord)\<close>.\<close>

definition Costs_add :: "int \<Rightarrow> nat list \<Rightarrow> Costs \<Rightarrow> Costs" where
  "Costs_add lineNumber costRecord c =
     c\<lparr>totalCosts := add_values (totalCosts c) costRecord,
       lineCosts := (lineCosts c)(lineNumber \<mapsto>
          (case lineCosts c lineNumber of
             None \<Rightarrow> costRecord
           | Some acc \<Rightarrow> add_values acc costRecord))\<rparr>"

text \<open>Modelled from the spec: \<open>cost(typeIndex, lineNumber)\<close>, 0 if absent.\<close>

definition Costs_cost :: "Costs \<Rightarrow> int \<Rightarrow> int \<Rightarrow> nat" where
  "Costs_cost c typeIndex lineNumber =
     (case lineCosts c lineNumber of
        None \<Rightarrow> 0
      | Some acc \<Rightarrow> value_of acc typeIndex)"

text \<open>Modelled from the spec: \<open>totalCost(typeIndex)\<close>.\<close>

definition Costs_totalCost :: "Costs \<Rightarrow> int \<Rightarrow> nat" where
  "Costs_totalCost c typeIndex = value_of (totalCosts c) typeIndex"

text \<open>Modelled from the spec: the type count and the type names of a result set.\<close>

definition Costs_numTypes :: "Costs \<Rightarrow> int" where
  "Costs_numTypes c = int (length (typeNames c))"

definition Costs_typeName :: "Costs \<Rightarrow> int \<Rightarrow> error + string" where
  "Costs_typeName c t = list_at (typeNames c) t"

text \<open>A sequence of \<open>add\<close> calls, in order.\<close>

definition Costs_addAll :: "(int \<times> nat list) list \<Rightarrow> Costs \<Rightarrow> Costs" where
  "Costs_addAll recs c = foldl (\<lambda>acc (l, r). Costs_add l r acc) c recs"

subsection \<open>Inputs: the disassembly and the profile\<close>

text \<open>
  \<^verbatim>\<open>DisassemblyOutput\<close> and \<^verbatim>\<open>Data::CallerCalleeResults\<close> are declared outside the
  sources; their fields are the ones \<^verbatim>\<open>setDisassembly\<close> reads. \<open>entry\<close> gives, for a
  symbol, its offset map from an instruction address to the self cost record there.
\<close>

record DisassemblyLine =
  addr :: nat
  disassembly :: string
  sourceCodeLine :: int

record DisassemblyOutput =
  symbol :: string
  sourceFileName :: string
  disassemblyLines :: "DisassemblyLine list"

record CallerCalleeResults =
  selfCosts :: Costs
  entry :: "string \<Rightarrow> (nat \<rightharpoonup> nat list)"

subsection \<open>The model object\<close>

text \<open>
  A \<^verbatim>\<open>QTextLine\<close> taken from a block of the document: the number of the block and its
  text. The document is its plain text; its blocks are the lines of that text.
\<close>

datatype QTextLine = TextLine int string

record SourceCodeModel =
  m_document :: string
  m_sourceCode :: "QTextLine list"
  m_validLineNumbers :: "int set"
  m_costs :: Costs
  m_callerCalleeResults :: CallerCalleeResults
  m_numTypes :: int
  m_lineOffset :: int
  m_highlightLine :: int

text \<open>
  The enumerators of \<^verbatim>\<open>SourceCodeModel::Columns\<close> are declared in a header that is not
  among the sources; they are a parameter of every function that names one.
\<close>

record Columns =
  SourceCodeColumn :: int
  SourceCodeLineNumber :: int
  Highlight :: int
  COLUMN_COUNT :: int

datatype Role = DisplayRole | ToolTipRole | CostRole | TotalCostRole | OtherRole

datatype Orientation = Horizontal | Vertical

datatype QVariant =
    Invalid
  | VLine QTextLine
  | VInt int
  | VBool bool
  | VCost nat
  | VString string

text \<open>An index of the table: its parent is always the invalid index.\<close>

record QModelIndex =
  row :: int
  column :: int

definition clear :: "SourceCodeModel \<Rightarrow> SourceCodeModel" where
  "clear m = m\<lparr>m_sourceCode := []\<rparr>"

subsection \<open>\<^verbatim>\<open>setDisassembly\<close>\<close>

text \<open>The state of the scan over the instructions (lines 73 to 99).\<close>

record ScanState =
  maxIndex :: int
  minIndex :: int
  scan_costs :: Costs
  scan_valid :: "int set"

definition scanLine :: "(nat \<rightharpoonup> nat list) \<Rightarrow> ScanState \<Rightarrow> DisassemblyLine \<Rightarrow> ScanState" where
  "scanLine offsetMap st line =
     (if sourceCodeLine line = 0 then st
      else
        let st1 = (if sourceCodeLine line > maxIndex st
                   then st\<lparr>maxIndex := sourceCodeLine line\<rparr> else st);
            st2 = (if sourceCodeLine line < minIndex st1
                   then st1\<lparr>minIndex := sourceCodeLine line\<rparr> else st1);
            st3 = (case offsetMap (addr line) of
                     None \<Rightarrow> st2
                   | Some costLine \<Rightarrow>
                       st2\<lparr>scan_costs := Costs_add (sourceCodeLine line) costLine (scan_costs st2)\<rparr>)
        in st3\<lparr>scan_valid := insert (sourceCodeLine line) (scan_valid st3)\<rparr>)"

definition scan :: "(nat \<rightharpoonup> nat list) \<Rightarrow> DisassemblyLine list \<Rightarrow> ScanState \<Rightarrow> ScanState" where
  "scan offsetMap ls st = foldl (scanLine offsetMap) st ls"

definition scan_init :: "Costs \<Rightarrow> ScanState" where
  "scan_init c = \<lparr>maxIndex = 0, minIndex = INT_MAX, scan_costs = c, scan_valid = {}\<rparr>"

text \<open>
  The loop of lines 106 to 112, on its two variables \<open>i\<close> and \<open>minIndex\<close>; the result is
  \<open>minIndex\<close> when the loop is left. The loop is entered with \<open>1 \<le> minIndex\<close>, so none
  of its subtractions leaves the 32-bit range.
\<close>

function walkBack :: "string list \<Rightarrow> int \<Rightarrow> int \<Rightarrow> error + int" where
  "walkBack lines i minIdx =
     (if \<not> i > minIdx - 6 then Inr minIdx
      else if i < 0 then Inr minIdx
      else (case list_at lines (minIdx - 1) of
              Inl e \<Rightarrow> Inl e
            | Inr l \<Rightarrow>
                if contains_paren l then Inr minIdx
                else walkBack lines (i - 1) (minIdx - 1)))"
  by pat_completeness auto
termination
  by (relation "measure (\<lambda>(lines, i, minIdx). nat (i + 1))") auto

text \<open>Lines 105 to 113: the parenthesis heuristic.\<close>

definition findSignature :: "string list \<Rightarrow> int \<Rightarrow> error + int" where
  "findSignature lines minIdx =
     (case list_at lines (minIdx - 1) of
        Inl e \<Rightarrow> Inl e
      | Inr l \<Rightarrow>
          if \<not> contains_paren l then walkBack lines (minIdx - 1) minIdx
          else Inr minIdx)"

text \<open>
  \<^verbatim>\<open>m_document->findBlockByLineNumber(i).layout()->lineAt(0)\<close>: a line number outside
  the document gives an invalid block, whose layout is null.
\<close>

definition blockLine :: "string \<Rightarrow> int \<Rightarrow> error + QTextLine" where
  "blockLine doc i =
     (let blocks = qsplit newline doc
      in if 0 \<le> i \<and> i < int (length blocks) then Inr (TextLine i (blocks ! nat i))
         else Inl NullLayout)"

text \<open>The loop of lines 115 to 118, from \<open>i\<close> up to but excluding \<open>bound\<close>.\<close>

function collectLines :: "string \<Rightarrow> int \<Rightarrow> int \<Rightarrow> QTextLine list \<Rightarrow> error + QTextLine list" where
  "collectLines doc i bound acc =
     (if i < bound
      then (case blockLine doc i of
              Inl e \<Rightarrow> Inl e
            | Inr l \<Rightarrow> collectLines doc (i + 1) bound (acc @ [l]))
      else Inr acc)"
  by pat_completeness auto
termination
  by (relation "measure (\<lambda>(doc, i, bound, acc). nat (bound - i))") auto

text \<open>
  \<open>fs\<close> is the file system: the content of each file that can be opened for reading.
  The early returns of lines 46 to 52 leave the object as it is.
\<close>

definition setDisassembly ::
  "(string \<rightharpoonup> string) \<Rightarrow> DisassemblyOutput \<Rightarrow> SourceCodeModel \<Rightarrow> error + SourceCodeModel" where
  "setDisassembly fs disassemblyOutput m =
     (if sourceFileName disassemblyOutput = [] then Inr m
      else (case fs (sourceFileName disassemblyOutput) of
        None \<Rightarrow> Inr m
      | Some sourceCode \<Rightarrow>
          let lines = qsplit newline sourceCode;
              st = scan (entry (m_callerCalleeResults m) (symbol disassemblyOutput))
                     (disassemblyLines disassemblyOutput)
                     (scan_init (Costs_initializeCostsFrom
                        (selfCosts (m_callerCalleeResults m)) Costs_empty))
          in (case findSignature lines (minIndex st) of
                Inl e \<Rightarrow> Inl e
              | Inr minIdx \<Rightarrow>
                  (case int_add (maxIndex st) 1 of
                     Inl e \<Rightarrow> Inl e
                   | Inr bound \<Rightarrow>
                       (case collectLines sourceCode (minIdx - 1) bound [] of
                          Inl e \<Rightarrow> Inl e
                        | Inr src \<Rightarrow>
                            Inr (m\<lparr>m_document := sourceCode,
                                   m_sourceCode := src,
                                   m_validLineNumbers := scan_valid st,
                                   m_costs := scan_costs st,
                                   m_lineOffset := minIdx\<rparr>))))))"

subsection \<open>Queries\<close>

definition columnCount :: "Columns \<Rightarrow> SourceCodeModel \<Rightarrow> bool \<Rightarrow> int" where
  "columnCount cols m parentValid = (if parentValid then 0 else COLUMN_COUNT cols + m_numTypes m)"

definition rowCount :: "SourceCodeModel \<Rightarrow> bool \<Rightarrow> int" where
  "rowCount m parentValid = (if parentValid then 0 else int (length (m_sourceCode m)))"

text \<open>\<^verbatim>\<open>QAbstractItemModel::hasIndex\<close>, for the invalid parent of a table index.\<close>

definition hasIndex :: "Columns \<Rightarrow> SourceCodeModel \<Rightarrow> int \<Rightarrow> int \<Rightarrow> bool" where
  "hasIndex cols m r c =
     (if r < 0 \<or> c < 0 then False
      else r < rowCount m False \<and> c < columnCount cols m False)"

definition headerData ::
  "Columns \<Rightarrow> SourceCodeModel \<Rightarrow> int \<Rightarrow> Orientation \<Rightarrow> Role \<Rightarrow> error + QVariant" where
  "headerData cols m section orientation role =
     (if section < 0 \<or> section \<ge> COLUMN_COUNT cols + m_numTypes m then Inr Invalid
      else if role \<noteq> DisplayRole \<or> orientation \<noteq> Horizontal then Inr Invalid
      else if section = SourceCodeColumn cols then Inr (VString ''Source Code'')
      else if section = SourceCodeLineNumber cols then Inr (VString ''Source Code Line Number'')
      else if section = Highlight cols then Inr (VString ''Highlight'')
      else if section - COLUMN_COUNT cols \<le> m_numTypes m
        then (case Costs_typeName (selfCosts (m_callerCalleeResults m))
                     (section - COLUMN_COUNT cols) of
                Inl e \<Rightarrow> Inl e
              | Inr name \<Rightarrow> Inr (VString name))
      else Inr Invalid)"

text \<open>
  \<open>formatCostRelative\<close> stands for \<^verbatim>\<open>Util::formatCostRelative\<close>, which is not among the
  sources.
\<close>

definition data ::
  "Columns \<Rightarrow> (nat \<Rightarrow> nat \<Rightarrow> bool \<Rightarrow> string) \<Rightarrow> SourceCodeModel \<Rightarrow> QModelIndex \<Rightarrow> Role
     \<Rightarrow> error + QVariant" where
  "data cols formatCostRelative m index role =
     (if \<not> hasIndex cols m (row index) (column index) then Inr Invalid
      else if row index > int (length (m_sourceCode m)) \<or> row index < 0 then Inr Invalid
      else (case list_at (m_sourceCode m) (row index) of
        Inl e \<Rightarrow> Inl e
      | Inr line \<Rightarrow>
          if role = DisplayRole \<or> role = ToolTipRole \<or> role = CostRole \<or> role = TotalCostRole
          then
            if column index = SourceCodeColumn cols then Inr (VLine line)
            else if column index = SourceCodeLineNumber cols then
              (case int_add (row index) (m_lineOffset m) of
                 Inl e \<Rightarrow> Inl e
               | Inr ln \<Rightarrow> Inr (VInt (if ln \<in> m_validLineNumbers m then ln else 0)))
            else if column index = Highlight cols then
              (case int_add (row index) (m_lineOffset m) of
                 Inl e \<Rightarrow> Inl e
               | Inr ln \<Rightarrow> Inr (VBool (ln = m_highlightLine m)))
            else if column index - COLUMN_COUNT cols < m_numTypes m then
              (case int_add (row index) (m_lineOffset m) of
                 Inl e \<Rightarrow> Inl e
               | Inr ln \<Rightarrow>
                   let cost = Costs_cost (m_costs m) (column index - COLUMN_COUNT cols) ln;
                       totalCost = Costs_totalCost (m_costs m) (column index - COLUMN_COUNT cols)
                   in if role = CostRole then Inr (VCost cost)
                      else if role = TotalCostRole then Inr (VCost totalCost)
                      else Inr (VString (formatCostRelative cost totalCost True)))
            else Inr Invalid
          else Inr Invalid))"

definition updateHighlighting :: "int \<Rightarrow> SourceCodeModel \<Rightarrow> SourceCodeModel" where
  "updateHighlighting line m = m\<lparr>m_highlightLine := line\<rparr>"

definition lineForIndex :: "SourceCodeModel \<Rightarrow> QModelIndex \<Rightarrow> error + int" where
  "lineForIndex m index = int_add (row index) (m_lineOffset m)"

definition setCallerCalleeResults :: "CallerCalleeResults \<Rightarrow> SourceCodeModel \<Rightarrow> SourceCodeModel" where
  "setCallerCalleeResults results m =
     m\<lparr>m_callerCalleeResults := results, m_numTypes := Costs_numTypes (selfCosts results)\<rparr>"

subsection \<open>Concrete inputs\<close>

text \<open>
  A source file of three lines whose function \<open>f\<close> starts on line 1, and its
  disassembly: the instruction at address 8 has no source line, the one at address 12
  has a source line but no cost entry.
\<close>

definition ex_source :: string where
  "ex_source = ''int f() {'' @ [newline] @ ''  return 1;'' @ [newline] @ ''}'' @ [newline]"

text \<open>A function \<open>g\<close> whose signature runs over seven lines, its body opening on line 8.\<close>

definition ex_sig_source :: string where
  "ex_sig_source =
     ''int g('' @ [newline] @ ''int a,'' @ [newline] @ ''int b,'' @ [newline] @
     ''int c,'' @ [newline] @ ''int d,'' @ [newline] @ ''int e,'' @ [newline] @
     ''int h)'' @ [newline] @ ''{'' @ [newline] @ ''  return a;'' @ [newline] @
     ''}'' @ [newline]"

definition ex_fs :: "string \<rightharpoonup> string" where
  "ex_fs = [''f.c'' \<mapsto> ex_source, ''g.c'' \<mapsto> ex_sig_source]"

text \<open>The file of \<open>f\<close> without its final newline: its last line is line 3.\<close>

definition ex_nonl_source :: string where
  "ex_nonl_source = ''int f() {'' @ [newline] @ ''  return 1;'' @ [newline] @ ''}''"

definition ex_nonl_fs :: "string \<rightharpoonup> string" where
  "ex_nonl_fs = [''f.c'' \<mapsto> ex_nonl_source]"

definition ex_out :: DisassemblyOutput where
  "ex_out = \<lparr>symbol = ''f'', sourceFileName = ''f.c'',
     disassemblyLines =
       [\<lparr>addr = 0, disassembly = ''push'', sourceCodeLine = 1\<rparr>,
        \<lparr>addr = 4, disassembly = ''mov'', sourceCodeLine = 2\<rparr>,
        \<lparr>addr = 8, disassembly = ''nop'', sourceCodeLine = 0\<rparr>,
        \<lparr>addr = 12, disassembly = ''ret'', sourceCodeLine = 3\<rparr>]\<rparr>"

definition ex_sig_out :: DisassemblyOutput where
  "ex_sig_out = \<lparr>symbol = ''g'', sourceFileName = ''g.c'',
     disassemblyLines =
       [\<lparr>addr = 0, disassembly = ''push'', sourceCodeLine = 8\<rparr>,
        \<lparr>addr = 4, disassembly = ''ret'', sourceCodeLine = 9\<rparr>]\<rparr>"

definition ex_unmapped_out :: DisassemblyOutput where
  "ex_unmapped_out = \<lparr>symbol = ''f'', sourceFileName = ''f.c'',
     disassemblyLines =
       [\<lparr>addr = 0, disassembly = ''push'', sourceCodeLine = 0\<rparr>,
        \<lparr>addr = 4, disassembly = ''ret'', sourceCodeLine = 0\<rparr>]\<rparr>"

definition ex_missing_out :: DisassemblyOutput where
  "ex_missing_out = \<lparr>symbol = ''f'', sourceFileName = ''missing.c'', disassemblyLines = []\<rparr>"

definition ex_scan_lines :: "DisassemblyLine list" where
  "ex_scan_lines =
     [\<lparr>addr = 0, disassembly = ''a'', sourceCodeLine = 5\<rparr>,
      \<lparr>addr = 4, disassembly = ''b'', sourceCodeLine = 5\<rparr>,
      \<lparr>addr = 8, disassembly = ''c'', sourceCodeLine = 7\<rparr>,
      \<lparr>addr = 12, disassembly = ''d'', sourceCodeLine = 0\<rparr>,
      \<lparr>addr = 16, disassembly = ''e'', sourceCodeLine = 9\<rparr>]"

definition ex_results :: CallerCalleeResults where
  "ex_results =
     \<lparr>selfCosts = \<lparr>typeNames = [''cycles''], totalCosts = [12], lineCosts = Map.empty\<rparr>,
      entry = (\<lambda>s. if s = ''f'' then [0 \<mapsto> [3], 4 \<mapsto> [7]]
                    else if s = ''g'' then [0 \<mapsto> [2]] else Map.empty)\<rparr>"

text \<open>A model that has been given the profile and has shown nothing yet.\<close>

definition ex_model :: SourceCodeModel where
  "ex_model = setCallerCalleeResults ex_results
     \<lparr>m_document = [], m_sourceCode = [], m_validLineNumbers = {}, m_costs = Costs_empty,
      m_callerCalleeResults = \<lparr>selfCosts = Costs_empty, entry = (\<lambda>s. Map.empty)\<rparr>,
      m_numTypes = 0, m_lineOffset = 0, m_highlightLine = 0\<rparr>"

text \<open>The same model after it has shown \<open>f\<close>.\<close>

definition ex_shown :: SourceCodeModel where
  "ex_shown = projr (setDisassembly ex_fs ex_out ex_model)"

definition ex_cols :: Columns where
  "ex_cols = \<lparr>SourceCodeColumn = 0, SourceCodeLineNumber = 1, Highlight = 2, COLUMN_COUNT = 3\<rparr>"

definition ex_format :: "nat \<Rightarrow> nat \<Rightarrow> bool \<Rightarrow> string" where
  "ex_format c t addPercent = []"

section \<open>Properties\<close>

subsection \<open>The aggregator keeps totals and per-line costs in step\<close>

lemma length_add_values: "length (add_values xs ys) = max (length xs) (length ys)"
  by (induction xs ys rule: add_values.induct) auto

lemma nth_add_values:
  "(if n < length (add_values xs ys) then add_values xs ys ! n else 0) =
   (if n < length xs then xs ! n else 0) + (if n < length ys then ys ! n else 0)"
proof (induction xs ys arbitrary: n rule: add_values.induct)
  case (1 ys)
  show ?case by simp
next
  case (2 x xs)
  show ?case by simp
next
  case (3 x xs y ys)
  show ?case
  proof (cases n)
    case 0
    then show ?thesis by simp
  next
    case (Suc k)
    with "3.IH" [of k] show ?thesis
      by (auto simp: length_add_values split: if_splits)
  qed
qed

lemma value_of_add_values:
  "value_of (add_values xs ys) t = value_of xs t + value_of ys t"
proof (cases "0 \<le> t")
  case True
  then have "(t < int (length zs)) = (nat t < length zs)" for zs :: "nat list"
    by auto
  with True nth_add_values [of "nat t" xs ys] show ?thesis
    by (simp add: value_of_def)
next
  case False
  then show ?thesis by (simp add: value_of_def)
qed

lemma Costs_totalCost_add:
  "Costs_totalCost (Costs_add l r c) t = Costs_totalCost c t + value_of r t"
  by (simp add: Costs_totalCost_def Costs_add_def value_of_add_values)

lemma Costs_cost_add:
  "Costs_cost (Costs_add l r c) t l' =
     Costs_cost c t l' + (if l' = l then value_of r t else 0)"
  by (simp add: Costs_cost_def Costs_add_def value_of_add_values split: option.splits)

lemma Costs_add_balanced:
  assumes "finite L" and "l \<in> L"
    and "Costs_totalCost c t = (\<Sum>k\<in>L. Costs_cost c t k)"
  shows "Costs_totalCost (Costs_add l r c) t = (\<Sum>k\<in>L. Costs_cost (Costs_add l r c) t k)"
proof -
  have "(\<Sum>k\<in>L. Costs_cost (Costs_add l r c) t k) =
        (\<Sum>k\<in>L. Costs_cost c t k) + (\<Sum>k\<in>L. if k = l then value_of r t else 0)"
    by (simp add: Costs_cost_add sum.distrib)
  also have "(\<Sum>k\<in>L. if k = l then value_of r t else 0) = value_of r t"
    using assms(1,2) by (simp add: sum.delta)
  finally show ?thesis
    using assms(3) by (simp add: Costs_totalCost_add)
qed

lemma Costs_addAll_balanced:
  assumes "finite L" and "fst ` set recs \<subseteq> L"
    and "Costs_totalCost c t = (\<Sum>k\<in>L. Costs_cost c t k)"
  shows "Costs_totalCost (Costs_addAll recs c) t =
         (\<Sum>k\<in>L. Costs_cost (Costs_addAll recs c) t k)"
  using assms(2,3)
proof (induction recs arbitrary: c)
  case Nil
  then show ?case by (simp add: Costs_addAll_def)
next
  case (Cons p recs)
  obtain l r where p: "p = (l, r)" by (cases p)
  from Cons.prems(1) p have "l \<in> L" and rest: "fst ` set recs \<subseteq> L" by auto
  from Costs_add_balanced [OF assms(1) \<open>l \<in> L\<close> Cons.prems(2)]
  have "Costs_totalCost (Costs_add l r c) t = (\<Sum>k\<in>L. Costs_cost (Costs_add l r c) t k)" .
  from Cons.IH [OF rest this] show ?case
    by (simp add: Costs_addAll_def p)
qed

lemma Costs_initialize_balanced:
  "Costs_totalCost (Costs_initializeCostsFrom rhs c0) t =
   (\<Sum>k\<in>L. Costs_cost (Costs_initializeCostsFrom rhs c0) t k)"
  by (auto simp: Costs_totalCost_def Costs_cost_def Costs_initializeCostsFrom_def value_of_def)

subsection \<open>The scan, the parenthesis heuristic and the collected rows\<close>

declare walkBack.simps [simp del]
declare collectLines.simps [simp del]

lemma scanLine_valid:
  "scan_valid (scanLine om st line) =
     (if sourceCodeLine line = 0 then scan_valid st
      else insert (sourceCodeLine line) (scan_valid st))"
  by (simp add: scanLine_def Let_def split: option.splits)

lemma scanLine_maxIndex:
  "maxIndex (scanLine om st line) =
     (if sourceCodeLine line = 0 then maxIndex st
      else max (maxIndex st) (sourceCodeLine line))"
  by (simp add: scanLine_def Let_def split: option.splits)

lemma scanLine_minIndex:
  "minIndex (scanLine om st line) =
     (if sourceCodeLine line = 0 then minIndex st
      else min (minIndex st) (sourceCodeLine line))"
  by (simp add: scanLine_def Let_def split: option.splits)

lemma scan_Cons: "scan om (x # xs) st = scan om xs (scanLine om st x)"
  by (simp add: scan_def)

lemma scan_Nil: "scan om [] st = st"
  by (simp add: scan_def)

lemma scan_valid_eq:
  "scan_valid (scan om ls st) = scan_valid st \<union> (sourceCodeLine ` set ls - {0})"
  by (induction ls arbitrary: st) (auto simp: scan_Nil scan_Cons scanLine_valid)

lemma scan_maxIndex_ge:
  "maxIndex st \<le> maxIndex (scan om ls st) \<and>
   (\<forall>l \<in> sourceCodeLine ` set ls - {0}. l \<le> maxIndex (scan om ls st))"
proof (induction ls arbitrary: st)
  case Nil
  show ?case by (simp add: scan_Nil)
next
  case (Cons x xs)
  from Cons.IH [of "scanLine om st x"] show ?case
    by (auto simp: scan_Cons scanLine_maxIndex split: if_splits)
qed

lemma scan_maxIndex_in:
  "maxIndex (scan om ls st) \<in> insert (maxIndex st) (sourceCodeLine ` set ls - {0})"
proof (induction ls arbitrary: st)
  case Nil
  show ?case by (simp add: scan_Nil)
next
  case (Cons x xs)
  from Cons.IH [of "scanLine om st x"] show ?case
    by (auto simp: scan_Cons scanLine_maxIndex max_def split: if_splits)
qed

lemma scan_minIndex_le:
  "minIndex (scan om ls st) \<le> minIndex st \<and>
   (\<forall>l \<in> sourceCodeLine ` set ls - {0}. minIndex (scan om ls st) \<le> l)"
proof (induction ls arbitrary: st)
  case Nil
  show ?case by (simp add: scan_Nil)
next
  case (Cons x xs)
  from Cons.IH [of "scanLine om st x"] show ?case
    by (auto simp: scan_Cons scanLine_minIndex split: if_splits)
qed

lemma scan_minIndex_in:
  "minIndex (scan om ls st) \<in> insert (minIndex st) (sourceCodeLine ` set ls - {0})"
proof (induction ls arbitrary: st)
  case Nil
  show ?case by (simp add: scan_Nil)
next
  case (Cons x xs)
  from Cons.IH [of "scanLine om st x"] show ?case
    by (auto simp: scan_Cons scanLine_minIndex min_def split: if_splits)
qed

lemma scan_maxIndex_eq:
  "maxIndex (scan om ls st) = Max (insert (maxIndex st) (sourceCodeLine ` set ls - {0}))"
proof (rule sym, rule Max_eqI)
  show "finite (insert (maxIndex st) (sourceCodeLine ` set ls - {0}))" by simp
  show "y \<le> maxIndex (scan om ls st)"
    if "y \<in> insert (maxIndex st) (sourceCodeLine ` set ls - {0})" for y
    using that scan_maxIndex_ge [of st om ls] by auto
  show "maxIndex (scan om ls st) \<in> insert (maxIndex st) (sourceCodeLine ` set ls - {0})"
    by (rule scan_maxIndex_in)
qed

lemma scan_minIndex_eq:
  "minIndex (scan om ls st) = Min (insert (minIndex st) (sourceCodeLine ` set ls - {0}))"
proof (rule sym, rule Min_eqI)
  show "finite (insert (minIndex st) (sourceCodeLine ` set ls - {0}))" by simp
  show "minIndex (scan om ls st) \<le> y"
    if "y \<in> insert (minIndex st) (sourceCodeLine ` set ls - {0})" for y
    using that scan_minIndex_le [of om ls st] by auto
  show "minIndex (scan om ls st) \<in> insert (minIndex st) (sourceCodeLine ` set ls - {0})"
    by (rule scan_minIndex_in)
qed

lemma scan_unmapped:
  "\<forall>line \<in> set ls. sourceCodeLine line = 0 \<Longrightarrow> scan om ls st = st"
  by (induction ls arbitrary: st) (simp_all add: scan_Nil scan_Cons scanLine_def)

lemma walkBack_bounds:
  "walkBack lines i mi = Inr r \<Longrightarrow> i = mi - 1 \<Longrightarrow> 0 \<le> mi \<Longrightarrow> 0 \<le> r \<and> r \<le> mi"
proof (induction lines i mi rule: walkBack.induct)
  case (1 lines i mi)
  note unfolded = "1.prems"(1) [unfolded walkBack.simps [of lines i mi]]
  from "1.prems"(2,3) have gt: "i > mi - 6" by simp
  show ?case
  proof (cases "i < 0")
    case True
    with unfolded gt have "r = mi" by simp
    with "1.prems"(3) show ?thesis by simp
  next
    case False
    show ?thesis
    proof (cases "list_at lines (mi - 1)")
      case (Inl e)
      with unfolded gt False show ?thesis by simp
    next
      case (Inr l)
      show ?thesis
      proof (cases "contains_paren l")
        case True
        with unfolded gt False Inr have "r = mi" by simp
        with "1.prems"(3) show ?thesis by simp
      next
        case no: False
        with unfolded gt False Inr
        have rec: "walkBack lines (i - 1) (mi - 1) = Inr r" by simp
        from "1.prems"(2) False have "i - 1 = mi - 1 - 1" and "0 \<le> mi - 1" by simp_all
        from "1.IH" [OF _ _ Inr no rec this] gt False
        show ?thesis by simp
      qed
    qed
  qed
qed

lemma findSignature_bounds:
  assumes "findSignature lines mi = Inr r"
  shows "1 \<le> mi \<and> mi \<le> int (length lines) \<and> 0 \<le> r \<and> r \<le> mi"
proof -
  from assms obtain l where l: "list_at lines (mi - 1) = Inr l"
    by (auto simp: findSignature_def split: sum.splits)
  then have range: "1 \<le> mi \<and> mi \<le> int (length lines)"
    by (auto simp: list_at_def split: if_splits)
  show ?thesis
  proof (cases "contains_paren l")
    case True
    with assms l range show ?thesis by (simp add: findSignature_def)
  next
    case False
    with assms l have "walkBack lines (mi - 1) mi = Inr r"
      by (simp add: findSignature_def)
    from walkBack_bounds [OF this] range show ?thesis by simp
  qed
qed

text \<open>Without any parenthesis the walk only ends at line 0, however far that is.\<close>

lemma walkBack_no_paren:
  "\<forall>j < n. \<not> contains_paren (lines ! j) \<Longrightarrow> n \<le> length lines \<Longrightarrow>
   walkBack lines (int n - 1) (int n) = Inr 0"
proof (induction n)
  case 0
  show ?case by (simp add: walkBack.simps [of lines "-1" 0])
next
  case (Suc n)
  then have IH: "walkBack lines (int n - 1) (int n) = Inr 0" by simp
  from Suc.prems have "\<not> contains_paren (lines ! n)" and "n < length lines" by auto
  with IH show ?case
    by (simp add: walkBack.simps [of lines "int n" "1 + int n"] list_at_def)
qed

lemma collectLines_Inr:
  "collectLines doc i bound acc = Inr rows \<Longrightarrow>
   rows = acc @ map (\<lambda>j. TextLine j (qsplit newline doc ! nat j)) [i..bound - 1] \<and>
   (i < bound \<longrightarrow> 0 \<le> i \<and> bound \<le> int (length (qsplit newline doc)))"
proof (induction doc i bound acc rule: collectLines.induct)
  case (1 doc i bound acc)
  show ?case
  proof (cases "i < bound")
    case False
    with "1.prems" show ?thesis by (simp add: collectLines.simps [of doc i bound acc])
  next
    case True
    with "1.prems" obtain l where l: "blockLine doc i = Inr l"
      and rec: "collectLines doc (i + 1) bound (acc @ [l]) = Inr rows"
      by (auto simp: collectLines.simps [of doc i bound acc] split: sum.splits)
    from l have li: "l = TextLine i (qsplit newline doc ! nat i)"
      and ir: "0 \<le> i" "i < int (length (qsplit newline doc))"
      by (auto simp: blockLine_def Let_def split: if_splits)
    from "1.IH" [OF True l rec]
    have rows: "rows = (acc @ [l]) @ map (\<lambda>j. TextLine j (qsplit newline doc ! nat j)) [i + 1..bound - 1]"
      and b: "i + 1 < bound \<longrightarrow> bound \<le> int (length (qsplit newline doc))"
      by simp_all
    from True have "[i..bound - 1] = i # [i + 1..bound - 1]"
      by (simp add: upto_rec1)
    with rows li have "rows = acc @ map (\<lambda>j. TextLine j (qsplit newline doc ! nat j)) [i..bound - 1]"
      by simp
    moreover from b ir True have "bound \<le> int (length (qsplit newline doc))"
      by (cases "i + 1 < bound") auto
    ultimately show ?thesis using ir by simp
  qed
qed

lemma setDisassembly_openedE:
  assumes "sourceFileName out \<noteq> []" and "fs (sourceFileName out) = Some src"
    and "setDisassembly fs out m = Inr m'"
  obtains st minIdx bound rows where
    "st = scan (entry (m_callerCalleeResults m) (symbol out)) (disassemblyLines out)
            (scan_init (Costs_initializeCostsFrom (selfCosts (m_callerCalleeResults m)) Costs_empty))"
    and "findSignature (qsplit newline src) (minIndex st) = Inr minIdx"
    and "int_add (maxIndex st) 1 = Inr bound"
    and "collectLines src (minIdx - 1) bound [] = Inr rows"
    and "m' = m\<lparr>m_document := src, m_sourceCode := rows, m_validLineNumbers := scan_valid st,
                m_costs := scan_costs st, m_lineOffset := minIdx\<rparr>"
  using assms unfolding setDisassembly_def
  by (auto simp: Let_def split: sum.splits)

lemma scan_init_fields:
  "maxIndex (scan_init c) = 0" "minIndex (scan_init c) = INT_MAX"
  "scan_valid (scan_init c) = {}" "scan_costs (scan_init c) = c"
  by (simp_all add: scan_init_def)

lemma int_add_Inr: "int_add a b = Inr c \<Longrightarrow> c = a + b \<and> INT_MIN \<le> a + b \<and> a + b \<le> INT_MAX"
  by (simp add: int_add_def split: if_splits)

text \<open>What a call that opened its file and returned has stored.\<close>

lemma setDisassembly_shape:
  assumes "sourceFileName out \<noteq> []" and "fs (sourceFileName out) = Some src"
    and "setDisassembly fs out m = Inr m'"
  defines "S \<equiv> sourceCodeLine ` set (disassemblyLines out) - {0}"
  shows "m_validLineNumbers m' = S"
    and "0 \<le> m_lineOffset m'"
    and "m_lineOffset m' \<le> Min (insert INT_MAX S)"
    and "Max (insert 0 S) + 1 \<le> INT_MAX"
    and "m_sourceCode m' =
           map (\<lambda>j. TextLine j (qsplit newline src ! nat j)) [m_lineOffset m' - 1..Max (insert 0 S)]"
    and "m_lineOffset m' - 1 \<le> Max (insert 0 S) \<Longrightarrow> 1 \<le> m_lineOffset m'"
    and "m_callerCalleeResults m' = m_callerCalleeResults m"
    and "m_numTypes m' = m_numTypes m"
    and "m_highlightLine m' = m_highlightLine m"
proof -
  from assms(1-3) obtain st minIdx bound rows where
    st: "st = scan (entry (m_callerCalleeResults m) (symbol out)) (disassemblyLines out)
            (scan_init (Costs_initializeCostsFrom (selfCosts (m_callerCalleeResults m)) Costs_empty))"
    and sig: "findSignature (qsplit newline src) (minIndex st) = Inr minIdx"
    and bound: "int_add (maxIndex st) 1 = Inr bound"
    and rows: "collectLines src (minIdx - 1) bound [] = Inr rows"
    and m': "m' = m\<lparr>m_document := src, m_sourceCode := rows, m_validLineNumbers := scan_valid st,
                m_costs := scan_costs st, m_lineOffset := minIdx\<rparr>"
    by (rule setDisassembly_openedE)
  have mx: "maxIndex st = Max (insert 0 S)"
    by (simp add: st scan_maxIndex_eq scan_init_fields S_def)
  have mn: "minIndex st = Min (insert INT_MAX S)"
    by (simp add: st scan_minIndex_eq scan_init_fields S_def)
  from int_add_Inr [OF bound] have b: "bound = maxIndex st + 1" "maxIndex st + 1 \<le> INT_MAX"
    by simp_all
  from findSignature_bounds [OF sig] have sb: "0 \<le> minIdx" "minIdx \<le> minIndex st"
    by simp_all
  from collectLines_Inr [OF rows]
  have r: "rows = map (\<lambda>j. TextLine j (qsplit newline src ! nat j)) [minIdx - 1..bound - 1]"
    and r0: "minIdx - 1 < bound \<longrightarrow> 0 \<le> minIdx - 1"
    by simp_all
  show "m_validLineNumbers m' = S"
    by (simp add: m' st scan_valid_eq scan_init_fields S_def)
  show "0 \<le> m_lineOffset m'" using sb by (simp add: m')
  show "m_lineOffset m' \<le> Min (insert INT_MAX S)" using sb mn by (simp add: m')
  show "Max (insert 0 S) + 1 \<le> INT_MAX" using b mx by simp
  show "m_sourceCode m' =
           map (\<lambda>j. TextLine j (qsplit newline src ! nat j)) [m_lineOffset m' - 1..Max (insert 0 S)]"
    using r b mx by (simp add: m')
  show "1 \<le> m_lineOffset m'" if "m_lineOffset m' - 1 \<le> Max (insert 0 S)"
    using that r0 b mx by (simp add: m')
  show "m_callerCalleeResults m' = m_callerCalleeResults m" by (simp add: m')
  show "m_numTypes m' = m_numTypes m" by (simp add: m')
  show "m_highlightLine m' = m_highlightLine m" by (simp add: m')
qed

lemma upto_row:
  assumes "0 \<le> r" and "r < int (length [a..b])"
  shows "a + r \<le> b" and "nat r < length [a..b]" and "[a..b] ! nat r = a + r"
proof -
  from assms show le: "a + r \<le> b" by (simp split: if_splits)
  from assms show "nat r < length [a..b]" by (simp split: if_splits)
  from le assms(1) have "[a..b] ! nat r = a + int (nat r)" by (intro nth_upto) simp
  with assms(1) show "[a..b] ! nat r = a + r" by simp
qed

text \<open>After such a call no row number added to the line offset leaves the 32-bit range.\<close>

lemma setDisassembly_row_line:
  assumes "sourceFileName out \<noteq> []" and "fs (sourceFileName out) = Some src"
    and "setDisassembly fs out m = Inr m'"
    and "0 \<le> r" and "r < int (length (m_sourceCode m'))"
  shows "int_add r (m_lineOffset m') = Inr (r + m_lineOffset m')"
    and "1 \<le> m_lineOffset m'"
    and "r + m_lineOffset m' \<le> Max (insert 0 (sourceCodeLine ` set (disassemblyLines out) - {0})) + 1"
    and "list_at (m_sourceCode m') r =
         Inr (TextLine (m_lineOffset m' + r - 1) (qsplit newline src ! nat (m_lineOffset m' + r - 1)))"
proof -
  let ?S = "sourceCodeLine ` set (disassemblyLines out) - {0}"
  note sh = setDisassembly_shape [OF assms(1-3)]
  from assms(5) have len: "r < int (length [m_lineOffset m' - 1..Max (insert 0 ?S)])"
    by (simp only: sh(5) length_map)
  note row = upto_row [OF assms(4) len]
  from row(1) have le: "r + m_lineOffset m' \<le> Max (insert 0 ?S) + 1" by simp
  from row(1) assms(4) have "m_lineOffset m' - 1 \<le> Max (insert 0 ?S)" by simp
  from sh(6) [OF this] show one: "1 \<le> m_lineOffset m'" .
  from le show "r + m_lineOffset m' \<le> Max (insert 0 ?S) + 1" .
  from le sh(4) one assms(4) show "int_add r (m_lineOffset m') = Inr (r + m_lineOffset m')"
    by (simp add: int_add_def INT_MIN_def)
  have "m_sourceCode m' ! nat r =
          TextLine (m_lineOffset m' - 1 + r) (qsplit newline src ! nat (m_lineOffset m' - 1 + r))"
    by (simp only: sh(5) nth_map [OF row(2)] row(3))
  moreover have "m_lineOffset m' - 1 + r = m_lineOffset m' + r - 1" by simp
  ultimately show "list_at (m_sourceCode m') r =
         Inr (TextLine (m_lineOffset m' + r - 1) (qsplit newline src ! nat (m_lineOffset m' + r - 1)))"
    using assms(4,5) by (simp add: list_at_def)
qed

lemma setDisassembly_first_line:
  assumes "sourceFileName out \<noteq> []" and "fs (sourceFileName out) = Some src"
    and "setDisassembly fs out m = Inr m'"
  shows "1 \<le> Min (insert INT_MAX (sourceCodeLine ` set (disassemblyLines out) - {0}))"
    and "Min (insert INT_MAX (sourceCodeLine ` set (disassemblyLines out) - {0}))
           \<le> int (length (qsplit newline src))"
proof -
  from assms obtain st minIdx where
    st: "st = scan (entry (m_callerCalleeResults m) (symbol out)) (disassemblyLines out)
            (scan_init (Costs_initializeCostsFrom (selfCosts (m_callerCalleeResults m)) Costs_empty))"
    and sig: "findSignature (qsplit newline src) (minIndex st) = Inr minIdx"
    by (rule setDisassembly_openedE)
  have "minIndex st = Min (insert INT_MAX (sourceCodeLine ` set (disassemblyLines out) - {0}))"
    by (simp add: st scan_minIndex_eq scan_init_fields)
  with findSignature_bounds [OF sig]
  show "1 \<le> Min (insert INT_MAX (sourceCodeLine ` set (disassemblyLines out) - {0}))"
    and "Min (insert INT_MAX (sourceCodeLine ` set (disassemblyLines out) - {0}))
           \<le> int (length (qsplit newline src))"
    by simp_all
qed

text \<open>With no mapped line the first read of the line buffer is at index \<open>INT_MAX - 1\<close>.\<close>

lemma setDisassembly_unmapped:
  assumes "sourceFileName out \<noteq> []" and "fs (sourceFileName out) = Some src"
    and "\<forall>line \<in> set (disassemblyLines out). sourceCodeLine line = 0"
    and "int (length (qsplit newline src)) < INT_MAX"
  shows "setDisassembly fs out m = Inl OutOfRange"
  using assms
  by (simp add: setDisassembly_def scan_unmapped scan_init_fields findSignature_def list_at_def)

lemma setDisassembly_results:
  "setDisassembly fs out m = Inr m' \<Longrightarrow> m_callerCalleeResults m' = m_callerCalleeResults m"
  by (auto simp: setDisassembly_def Let_def split: if_splits option.splits sum.splits)

text \<open>
  Whether the call returns, and what it then shows, is a function of the file, the
  disassembly and the profile: the members it overwrites are never read.
\<close>

lemma setDisassembly_independent:
  assumes "sourceFileName out \<noteq> []" and "fs (sourceFileName out) = Some src"
    and "m_callerCalleeResults m = m_callerCalleeResults n"
  shows "map_sum id (\<lambda>x. (m_costs x, m_validLineNumbers x, m_sourceCode x, m_lineOffset x, m_document x))
           (setDisassembly fs out m) =
         map_sum id (\<lambda>x. (m_costs x, m_validLineNumbers x, m_sourceCode x, m_lineOffset x, m_document x))
           (setDisassembly fs out n)"
  using assms
  by (simp add: setDisassembly_def Let_def split: sum.splits)

text \<open>
  What the loop of lines 115 to 118 has collected whenever the call returns: the blocks
  \<open>minIndex - 1\<close> to \<open>maxIndex\<close>, the last of them one past the block of the largest mapped
  line.
\<close>

lemma setDisassembly_collected_rows:
  assumes "sourceFileName out \<noteq> []" and "fs (sourceFileName out) = Some src"
    and "setDisassembly fs out m = Inr m'"
    and "sourceCodeLine ` set (disassemblyLines out) - {0} \<noteq> {}"
  shows "rowCount m' False =
           Max (sourceCodeLine ` set (disassemblyLines out) - {0}) - m_lineOffset m' + 2 \<and>
         1 \<le> m_lineOffset m' \<and>
         m_lineOffset m' \<le> Min (sourceCodeLine ` set (disassemblyLines out) - {0}) \<and>
         (\<forall>r c. 0 \<le> r \<and> r < rowCount m' False \<longrightarrow>
            lineForIndex m' \<lparr>row = r, column = c\<rparr> = Inr (m_lineOffset m' + r) \<and>
            list_at (m_sourceCode m') r =
              Inr (TextLine (m_lineOffset m' + r - 1)
                     (qsplit newline src ! nat (m_lineOffset m' + r - 1))))"
proof -
  define S where "S = sourceCodeLine ` set (disassemblyLines out) - {0}"
  have fin: "finite S" and ne: "S \<noteq> {}"
    using assms(4) by (simp_all add: S_def)
  note sh = setDisassembly_shape [OF assms(1-3), folded S_def]
  note fl = setDisassembly_first_line [OF assms(1-3), folded S_def]
  from fin ne have minS: "Min (insert INT_MAX S) \<le> Min S" by simp
  with fl(1) have one: "1 \<le> Min S" by simp
  from fin ne have "Min S \<le> Max S" by simp
  with one have "0 \<le> Max S" by simp
  then have maxS: "Max (insert 0 S) = Max S"
    using fin ne by (simp add: max_def)
  from sh(3) minS have off: "m_lineOffset m' \<le> Min S" by simp
  with \<open>Min S \<le> Max S\<close> maxS have "m_lineOffset m' - 1 \<le> Max (insert 0 S)" by simp
  from sh(6) [OF this] have pos: "1 \<le> m_lineOffset m'" .
  from off \<open>Min S \<le> Max S\<close> have rc: "rowCount m' False = Max S - m_lineOffset m' + 2"
    by (simp add: rowCount_def sh(5) maxS)
  have rows: "lineForIndex m' \<lparr>row = r, column = c\<rparr> = Inr (m_lineOffset m' + r) \<and>
            list_at (m_sourceCode m') r =
              Inr (TextLine (m_lineOffset m' + r - 1)
                     (qsplit newline src ! nat (m_lineOffset m' + r - 1)))"
    if "0 \<le> r \<and> r < rowCount m' False" for r c
  proof -
    from that have r: "0 \<le> r" "r < int (length (m_sourceCode m'))"
      by (simp_all add: rowCount_def)
    from setDisassembly_row_line(1,4) [OF assms(1-3) r] show ?thesis
      by (simp add: lineForIndex_def add.commute)
  qed
  from rc pos off rows show ?thesis
    unfolding S_def by blast
qed

subsection \<open>The concrete inputs, evaluated\<close>

lemmas ex_defs = ex_source_def ex_sig_source_def ex_fs_def ex_out_def ex_sig_out_def
  ex_unmapped_out_def ex_missing_out_def ex_scan_lines_def ex_results_def ex_model_def
  ex_cols_def ex_format_def

lemmas run_defs = setDisassembly_def scan_def scanLine_def scan_init_def findSignature_def
  walkBack.simps collectLines.simps blockLine_def list_at_def contains_paren_def int_add_def
  INT_MAX_def INT_MIN_def newline_def setCallerCalleeResults_def Costs_numTypes_def
  Costs_initializeCostsFrom_def Costs_add_def Costs_empty_def Let_def

lemma ex_out_opened:
  "sourceFileName ex_out \<noteq> []" "ex_fs (sourceFileName ex_out) = Some ex_source"
  by (simp_all add: ex_out_def ex_fs_def)

lemma ex_out_shown: "setDisassembly ex_fs ex_out ex_model = Inr ex_shown"
proof -
  have "\<not> isl (setDisassembly ex_fs ex_out ex_model)"
    by (simp add: ex_defs run_defs)
  then show ?thesis by (simp add: ex_shown_def)
qed

lemma ex_shown_fields:
  "m_lineOffset ex_shown = 1"
  "m_sourceCode ex_shown =
     [TextLine 0 ''int f() {'', TextLine 1 ''  return 1;'', TextLine 2 ''}'', TextLine 3 []]"
  "m_validLineNumbers ex_shown = {1, 2, 3}"
  "m_numTypes ex_shown = 1"
  by (simp_all add: ex_shown_def ex_defs run_defs insert_commute)

subsection \<open>The claims\<close>

text \<open>
  C1. For every sequence of cost records added with \<open>add\<close> after initialization, and for
  every cost type, \<open>totalCost(type)\<close> is the sum over all source lines of
  \<open>cost(type, line)\<close>: over any finite set of lines that holds every line added to, the
  lines outside it costing 0.
\<close>

theorem totalCost_is_sum_of_line_costs:
  assumes "finite L" and "fst ` set recs \<subseteq> L"
  shows "Costs_totalCost (Costs_addAll recs (Costs_initializeCostsFrom rhs c0)) t =
         (\<Sum>l\<in>L. Costs_cost (Costs_addAll recs (Costs_initializeCostsFrom rhs c0)) t l)"
  using assms Costs_initialize_balanced by (rule Costs_addAll_balanced)

theorem totalCost_is_sum_of_line_costs_witness:
  "finite {5, 7 :: int} \<and> fst ` set [(5, [3, 1]), (7, [7]), (5, [1, 1, 4 :: nat])] \<subseteq> {5, 7 :: int} \<and>
   Costs_totalCost (Costs_addAll [(5, [3, 1]), (7, [7]), (5, [1, 1, 4])]
      (Costs_initializeCostsFrom \<lparr>typeNames = [''cycles'', ''misses''], totalCosts = [9, 9], lineCosts = Map.empty\<rparr> Costs_empty)) 0 = 11 \<and>
   (\<Sum>l\<in>{5, 7}. Costs_cost (Costs_addAll [(5, [3, 1]), (7, [7]), (5, [1, 1, 4])]
      (Costs_initializeCostsFrom \<lparr>typeNames = [''cycles'', ''misses''], totalCosts = [9, 9], lineCosts = Map.empty\<rparr> Costs_empty)) 0 l) = 11"
  using totalCost_is_sum_of_line_costs [of "{5, 7}" "[(5, [3, 1]), (7, [7]), (5, [1, 1, 4])]"
     "\<lparr>typeNames = [''cycles'', ''misses''], totalCosts = [9, 9], lineCosts = Map.empty\<rparr>" Costs_empty 0]
  by (simp add: Costs_totalCost_def Costs_addAll_def Costs_add_def Costs_initializeCostsFrom_def value_of_def)

text \<open>
  C2. Where the line at index \<open>minIndex - 1\<close> has no opening parenthesis, the claim bounds
  the walk by five decrements of \<open>minIndex\<close>. The loop condition \<open>i > minIndex - 6\<close>
  compares two variables that are decremented together, so it never ends the loop: on
  the signature of \<open>g\<close>, spread over seven lines, the walk that starts at line 8 takes
  seven steps and stops at line 1.
\<close>

theorem findSignature_walks_seven_lines:
  "list_at (qsplit newline ex_sig_source) (8 - 1) = Inr ''{'' \<and>
   findSignature (qsplit newline ex_sig_source) 8 = Inr (8 - 7) \<and>
   map_sum id m_lineOffset (setDisassembly ex_fs ex_sig_out ex_model) = Inr 1"
  by (simp add: ex_defs run_defs)

text \<open>
  C3. With an openable file and no mapped instruction the scan leaves \<open>minIndex\<close> at
  \<open>INT_MAX\<close> and \<open>maxIndex\<close> at 0, as the claim says; the function then reads the line
  buffer at index \<open>INT_MAX - 1\<close>, outside the four entries that the file splits into,
  instead of completing.
\<close>

theorem setDisassembly_unmapped_out_of_range:
  "minIndex (scan om (disassemblyLines ex_unmapped_out) (scan_init c)) = INT_MAX \<and>
   maxIndex (scan om (disassemblyLines ex_unmapped_out) (scan_init c)) = 0 \<and>
   list_at (qsplit newline ex_source) (INT_MAX - 1) = Inl OutOfRange \<and>
   setDisassembly ex_fs ex_unmapped_out ex_model = Inl OutOfRange"
  by (simp add: ex_defs run_defs)

text \<open>
  C4. After a successful \<open>setDisassembly\<close> the rows should be the inclusive span of source
  lines \<open>minIndex\<close> to \<open>maxIndex\<close>, with \<open>rowCount() = maxIndex - minIndex + 1\<close> and
  \<open>lineForIndex\<close> mapping row \<open>r\<close> to line \<open>minIndex + r\<close>. Line 115 turns the lower bound
  into a block index, \<open>minIndex - 1\<close>, but leaves the upper bound a line number,
  \<open>i < maxIndex + 1\<close>: the loop runs one block too far. For \<open>f\<close>, whose mapped lines are
  1 to 3, the model shows four rows, the last one the empty text after the final
  newline; on the same file without that newline there is no such block and the loop
  calls through the null layout of an invalid block.
\<close>

theorem rowCount_one_past_span:
  "setDisassembly ex_fs ex_out ex_model = Inr ex_shown \<and>
   Max (sourceCodeLine ` set (disassemblyLines ex_out) - {0}) = 3 \<and>
   m_lineOffset ex_shown = 1 \<and>
   rowCount ex_shown False = 4 \<and>
   rowCount ex_shown False \<noteq>
     Max (sourceCodeLine ` set (disassemblyLines ex_out) - {0}) - m_lineOffset ex_shown + 1 \<and>
   list_at (m_sourceCode ex_shown) 3 = Inr (TextLine 3 []) \<and>
   lineForIndex ex_shown \<lparr>row = 3, column = 0\<rparr> = Inr 4 \<and>
   setDisassembly ex_nonl_fs ex_out ex_model = Inl NullLayout"
proof -
  have "sourceCodeLine ` set (disassemblyLines ex_out) - {0} = {1, 2, 3}"
    by (auto simp: ex_out_def)
  moreover have "setDisassembly ex_nonl_fs ex_out ex_model = Inl NullLayout"
    by (simp add: ex_nonl_fs_def ex_nonl_source_def ex_defs run_defs)
  ultimately show ?thesis
    by (simp add: ex_out_shown ex_shown_fields rowCount_def list_at_def lineForIndex_def
          int_add_def INT_MIN_def INT_MAX_def)
qed

text \<open>
  C5. After \<open>setDisassembly\<close> a source line is in the valid-line set exactly when some
  instruction of the disassembly maps to it, whether or not the address of that
  instruction has a cost entry; and the \<open>SourceCodeLineNumber\<close> cell of a row is the line
  number of the row when that line is valid and 0 otherwise.
\<close>

theorem valid_lines_are_mapped_lines:
  assumes "sourceFileName out \<noteq> []" and "fs (sourceFileName out) = Some src"
    and "setDisassembly fs out m = Inr m'"
  shows "(l \<in> m_validLineNumbers m' \<longleftrightarrow>
            l \<noteq> 0 \<and> (\<exists>line \<in> set (disassemblyLines out). sourceCodeLine line = l)) \<and>
         (hasIndex cols m' r (SourceCodeLineNumber cols) \<and>
          SourceCodeLineNumber cols \<noteq> SourceCodeColumn cols \<and>
          role \<in> {DisplayRole, ToolTipRole, CostRole, TotalCostRole} \<longrightarrow>
            data cols fmt m' \<lparr>row = r, column = SourceCodeLineNumber cols\<rparr> role =
              Inr (VInt (if r + m_lineOffset m' \<in> m_validLineNumbers m'
                         then r + m_lineOffset m' else 0)))"
proof (intro conjI impI)
  show "l \<in> m_validLineNumbers m' \<longleftrightarrow>
          l \<noteq> 0 \<and> (\<exists>line \<in> set (disassemblyLines out). sourceCodeLine line = l)"
    by (auto simp: setDisassembly_shape(1) [OF assms])
next
  assume h: "hasIndex cols m' r (SourceCodeLineNumber cols) \<and>
          SourceCodeLineNumber cols \<noteq> SourceCodeColumn cols \<and>
          role \<in> {DisplayRole, ToolTipRole, CostRole, TotalCostRole}"
  then have r: "0 \<le> r" "r < int (length (m_sourceCode m'))"
    by (simp_all add: hasIndex_def rowCount_def split: if_splits)
  from setDisassembly_row_line(1) [OF assms r]
  have ln: "int_add r (m_lineOffset m') = Inr (r + m_lineOffset m')" .
  from r have at: "list_at (m_sourceCode m') r = Inr (m_sourceCode m' ! nat r)"
    by (simp add: list_at_def)
  from h r ln at
  show "data cols fmt m' \<lparr>row = r, column = SourceCodeLineNumber cols\<rparr> role =
              Inr (VInt (if r + m_lineOffset m' \<in> m_validLineNumbers m'
                         then r + m_lineOffset m' else 0))"
    by (auto simp: data_def)
qed

theorem valid_lines_are_mapped_lines_witness:
  "sourceFileName ex_out \<noteq> [] \<and> ex_fs (sourceFileName ex_out) = Some ex_source \<and>
   setDisassembly ex_fs ex_out ex_model = Inr ex_shown \<and>
   3 \<in> m_validLineNumbers ex_shown \<and>
   entry (m_callerCalleeResults ex_model) (symbol ex_out) 12 = None \<and>
   (\<exists>line \<in> set (disassemblyLines ex_out). addr line = 12 \<and> sourceCodeLine line = 3) \<and>
   hasIndex ex_cols ex_shown 3 (SourceCodeLineNumber ex_cols) \<and>
   SourceCodeLineNumber ex_cols \<noteq> SourceCodeColumn ex_cols \<and>
   DisplayRole \<in> {DisplayRole, ToolTipRole, CostRole, TotalCostRole} \<and>
   data ex_cols ex_format ex_shown \<lparr>row = 3, column = SourceCodeLineNumber ex_cols\<rparr> DisplayRole =
     Inr (VInt 0) \<and>
   data ex_cols ex_format ex_shown \<lparr>row = 2, column = SourceCodeLineNumber ex_cols\<rparr> DisplayRole =
     Inr (VInt 3)"
proof -
  have hi: "hasIndex ex_cols ex_shown 3 (SourceCodeLineNumber ex_cols)"
    "hasIndex ex_cols ex_shown 2 (SourceCodeLineNumber ex_cols)"
    by (simp_all add: hasIndex_def rowCount_def columnCount_def ex_shown_fields ex_cols_def)
  have cols: "SourceCodeLineNumber ex_cols \<noteq> SourceCodeColumn ex_cols"
    by (simp add: ex_cols_def)
  note inst = valid_lines_are_mapped_lines [OF ex_out_opened ex_out_shown,
      where cols = ex_cols and role = DisplayRole and fmt = ex_format]
  from inst [where l = 3 and r = 3] hi(1) cols
  have a: "3 \<in> m_validLineNumbers ex_shown"
    and b: "data ex_cols ex_format ex_shown \<lparr>row = 3, column = SourceCodeLineNumber ex_cols\<rparr> DisplayRole =
     Inr (VInt 0)"
    by (simp_all add: ex_out_def ex_shown_fields)
  from inst [where l = 3 and r = 2] hi(2) cols
  have c: "data ex_cols ex_format ex_shown \<lparr>row = 2, column = SourceCodeLineNumber ex_cols\<rparr> DisplayRole =
     Inr (VInt 3)"
    by (simp add: ex_shown_fields)
  have d: "entry (m_callerCalleeResults ex_model) (symbol ex_out) 12 = None"
    by (simp add: ex_model_def ex_results_def ex_out_def setCallerCalleeResults_def)
  have e: "\<exists>line \<in> set (disassemblyLines ex_out). addr line = 12 \<and> sourceCodeLine line = 3"
    by (simp add: ex_out_def)
  from a b c d e hi(1) cols ex_out_opened ex_out_shown show ?thesis by simp
qed

text \<open>
  C6. Of two successive calls that return, with different symbols, the second leaves
  costs, valid lines, rows and line offset that depend on its own inputs only: any
  other model holding the same profile, whatever it showed before, ends with the same
  four members.
\<close>

theorem setDisassembly_no_leak:
  assumes "setDisassembly fs1 out1 m0 = Inr m1"
    and "sourceFileName out2 \<noteq> []" and "fs2 (sourceFileName out2) = Some src"
    and "setDisassembly fs2 out2 m1 = Inr m2"
    and "m_callerCalleeResults n = m_callerCalleeResults m0"
  shows "\<exists>n2. setDisassembly fs2 out2 n = Inr n2 \<and>
           m_costs n2 = m_costs m2 \<and>
           m_validLineNumbers n2 = m_validLineNumbers m2 \<and>
           m_sourceCode n2 = m_sourceCode m2 \<and>
           m_lineOffset n2 = m_lineOffset m2"
proof -
  from setDisassembly_results [OF assms(1)] assms(5)
  have "m_callerCalleeResults n = m_callerCalleeResults m1" by simp
  from setDisassembly_independent [where fs = fs2 and out = out2 and m = n and n = m1, OF assms(2,3) this] assms(4)
  show ?thesis
    by (cases "setDisassembly fs2 out2 n") auto
qed

theorem setDisassembly_no_leak_witness:
  "setDisassembly ex_fs ex_out ex_model = Inr ex_shown \<and>
   sourceFileName ex_sig_out \<noteq> [] \<and> ex_fs (sourceFileName ex_sig_out) = Some ex_sig_source \<and>
   symbol ex_sig_out \<noteq> symbol ex_out \<and>
   \<not> isl (setDisassembly ex_fs ex_sig_out ex_shown) \<and>
   m_callerCalleeResults ex_model = m_callerCalleeResults ex_model \<and>
   \<not> isl (setDisassembly ex_fs ex_sig_out ex_model) \<and>
   m_costs (projr (setDisassembly ex_fs ex_sig_out ex_model)) =
     m_costs (projr (setDisassembly ex_fs ex_sig_out ex_shown)) \<and>
   m_validLineNumbers (projr (setDisassembly ex_fs ex_sig_out ex_model)) =
     m_validLineNumbers (projr (setDisassembly ex_fs ex_sig_out ex_shown)) \<and>
   m_sourceCode (projr (setDisassembly ex_fs ex_sig_out ex_model)) =
     m_sourceCode (projr (setDisassembly ex_fs ex_sig_out ex_shown)) \<and>
   m_lineOffset (projr (setDisassembly ex_fs ex_sig_out ex_model)) =
     m_lineOffset (projr (setDisassembly ex_fs ex_sig_out ex_shown)) \<and>
   Costs_totalCost (m_costs (projr (setDisassembly ex_fs ex_sig_out ex_shown))) 0 = 2 \<and>
   Costs_totalCost (m_costs ex_shown) 0 = 10"
proof -
  have op: "sourceFileName ex_sig_out \<noteq> []" "ex_fs (sourceFileName ex_sig_out) = Some ex_sig_source"
    by (simp_all add: ex_sig_out_def ex_fs_def)
  have sym: "symbol ex_sig_out \<noteq> symbol ex_out"
    by (simp add: ex_sig_out_def ex_out_def)
  have fresh: "\<not> isl (setDisassembly ex_fs ex_sig_out ex_model)"
    by (simp add: ex_defs run_defs)
  have res: "m_callerCalleeResults ex_shown = m_callerCalleeResults ex_model"
    by (rule setDisassembly_results [OF ex_out_shown])
  from setDisassembly_independent [where fs = ex_fs and out = ex_sig_out and m = ex_shown and n = ex_model, OF op res] fresh
  have second: "\<not> isl (setDisassembly ex_fs ex_sig_out ex_shown)"
    by (cases "setDisassembly ex_fs ex_sig_out ex_shown";
        cases "setDisassembly ex_fs ex_sig_out ex_model") auto
  then have run: "setDisassembly ex_fs ex_sig_out ex_shown =
      Inr (projr (setDisassembly ex_fs ex_sig_out ex_shown))"
    by simp
  from setDisassembly_no_leak [where ?fs2.0 = ex_fs and ?out2.0 = ex_sig_out and n = ex_model,
      OF ex_out_shown op run refl]
  obtain n2 where n2: "setDisassembly ex_fs ex_sig_out ex_model = Inr n2"
    and eqs: "m_costs n2 = m_costs (projr (setDisassembly ex_fs ex_sig_out ex_shown))"
      "m_validLineNumbers n2 = m_validLineNumbers (projr (setDisassembly ex_fs ex_sig_out ex_shown))"
      "m_sourceCode n2 = m_sourceCode (projr (setDisassembly ex_fs ex_sig_out ex_shown))"
      "m_lineOffset n2 = m_lineOffset (projr (setDisassembly ex_fs ex_sig_out ex_shown))"
    by blast
  have sel: "projr (setDisassembly ex_fs ex_sig_out ex_model) = n2"
    by (simp only: n2 sum.sel)
  note same = eqs [folded sel]
  have "Costs_totalCost (m_costs (projr (setDisassembly ex_fs ex_sig_out ex_model))) 0 = 2"
    by (simp add: ex_defs run_defs Costs_totalCost_def value_of_def)
  then have t1: "Costs_totalCost (m_costs (projr (setDisassembly ex_fs ex_sig_out ex_shown))) 0 = 2"
    by (simp only: same(1))
  have t0: "Costs_totalCost (m_costs ex_shown) 0 = 10"
    by (simp add: ex_shown_def ex_defs run_defs Costs_totalCost_def value_of_def)
  from same t1 t0 op sym fresh second ex_out_shown show ?thesis
    by (intro conjI) (assumption | rule refl)+
qed

text \<open>
  C7. On instructions that carry the source lines 5, 5, 7, 0, 9 in this order, whatever
  their addresses and costs, the scan skips the unmapped one and ends with
  \<open>minIndex = 5\<close>, \<open>maxIndex = 9\<close> and the valid lines 5, 7 and 9.
\<close>

theorem scan_skips_unmapped:
  assumes "map sourceCodeLine ls = [5, 5, 7, 0, 9]"
  shows "minIndex (scan om ls (scan_init c)) = 5 \<and>
         maxIndex (scan om ls (scan_init c)) = 9 \<and>
         scan_valid (scan om ls (scan_init c)) = {5, 7, 9}"
proof -
  have "sourceCodeLine ` set ls = set (map sourceCodeLine ls)" by simp
  also have "\<dots> = {5, 7, 0, 9}" by (simp only: assms) auto
  finally have S: "sourceCodeLine ` set ls - {0} = {5, 7, 9}" by auto
  show ?thesis
    by (simp add: scan_minIndex_eq scan_maxIndex_eq scan_valid_eq S scan_init_fields INT_MAX_def)
qed

theorem scan_skips_unmapped_witness:
  "map sourceCodeLine ex_scan_lines = [5, 5, 7, 0, 9] \<and>
   minIndex (scan [0 \<mapsto> [3]] ex_scan_lines (scan_init Costs_empty)) = 5 \<and>
   maxIndex (scan [0 \<mapsto> [3]] ex_scan_lines (scan_init Costs_empty)) = 9 \<and>
   scan_valid (scan [0 \<mapsto> [3]] ex_scan_lines (scan_init Costs_empty)) = {5, 7, 9}"
proof -
  have h: "map sourceCodeLine ex_scan_lines = [5, 5, 7, 0, 9]"
    by (simp add: ex_scan_lines_def)
  from scan_skips_unmapped [OF h, of "[0 \<mapsto> [3]]" Costs_empty] h show ?thesis
    by simp
qed

text \<open>
  C8. When the source file name is empty or the file cannot be opened for reading,
  \<open>setDisassembly\<close> returns at once and leaves every member of the model as it was.
\<close>

theorem setDisassembly_unreadable:
  assumes "sourceFileName out = [] \<or> fs (sourceFileName out) = None"
  shows "setDisassembly fs out m = Inr m"
  using assms by (auto simp: setDisassembly_def)

theorem setDisassembly_unreadable_witness:
  "(sourceFileName ex_missing_out = [] \<or> ex_fs (sourceFileName ex_missing_out) = None) \<and>
   setDisassembly ex_fs ex_missing_out ex_shown = Inr ex_shown"
proof -
  have h: "sourceFileName ex_missing_out = [] \<or> ex_fs (sourceFileName ex_missing_out) = None"
    by (simp add: ex_missing_out_def ex_fs_def)
  from setDisassembly_unreadable [where fs = ex_fs and out = ex_missing_out and m = ex_shown, OF h] h
  show ?thesis by simp
qed

text \<open>
  C9. For an index whose row or column is out of range \<open>data\<close> returns the empty value,
  and for a section outside \<open>[0, COLUMN_COUNT + numTypes)\<close> \<open>headerData\<close> returns the empty
  value: both return, and neither reads a list outside its bounds.
\<close>

theorem out_of_range_queries_are_empty:
  "(r < 0 \<or> r \<ge> rowCount m False \<or> c < 0 \<or> c \<ge> columnCount cols m False \<longrightarrow>
      data cols fmt m \<lparr>row = r, column = c\<rparr> role = Inr Invalid) \<and>
   (section < 0 \<or> section \<ge> COLUMN_COUNT cols + m_numTypes m \<longrightarrow>
      headerData cols m section orientation hrole = Inr Invalid)"
  by (auto simp: data_def hasIndex_def headerData_def)

theorem out_of_range_queries_are_empty_witness:
  "((4::int) < 0 \<or> 4 \<ge> rowCount ex_shown False \<or> (1::int) < 0 \<or> 1 \<ge> columnCount ex_cols ex_shown False) \<and>
   data ex_cols ex_format ex_shown \<lparr>row = 4, column = 1\<rparr> DisplayRole = Inr Invalid \<and>
   ((4::int) < 0 \<or> 4 \<ge> COLUMN_COUNT ex_cols + m_numTypes ex_shown) \<and>
   headerData ex_cols ex_shown 4 Horizontal DisplayRole = Inr Invalid"
proof -
  have a: "(4::int) < 0 \<or> 4 \<ge> rowCount ex_shown False \<or> (1::int) < 0 \<or> 1 \<ge> columnCount ex_cols ex_shown False"
    by (simp add: rowCount_def ex_shown_fields)
  have b: "(4::int) < 0 \<or> 4 \<ge> COLUMN_COUNT ex_cols + m_numTypes ex_shown"
    by (simp add: ex_cols_def ex_shown_fields)
  from out_of_range_queries_are_empty [of 4 ex_shown 1 ex_cols ex_format DisplayRole 4 Horizontal DisplayRole] a b
  show ?thesis by blast
qed

text \<open>
  C10. \<open>updateHighlighting(line)\<close> changes the stored highlight line and nothing else:
  the document, rows, costs, valid lines, line offset, profile and the row and column
  counts stay, and afterwards the \<open>Highlight\<close> cell of a row \<open>r\<close> is true exactly when
  \<open>r + lineOffset\<close> is \<open>line\<close>.
\<close>

theorem updateHighlighting_frame:
  "m_highlightLine (updateHighlighting line m) = line \<and>
   m_document (updateHighlighting line m) = m_document m \<and>
   m_sourceCode (updateHighlighting line m) = m_sourceCode m \<and>
   m_costs (updateHighlighting line m) = m_costs m \<and>
   m_validLineNumbers (updateHighlighting line m) = m_validLineNumbers m \<and>
   m_lineOffset (updateHighlighting line m) = m_lineOffset m \<and>
   m_callerCalleeResults (updateHighlighting line m) = m_callerCalleeResults m \<and>
   m_numTypes (updateHighlighting line m) = m_numTypes m \<and>
   rowCount (updateHighlighting line m) p = rowCount m p \<and>
   columnCount cols (updateHighlighting line m) p = columnCount cols m p \<and>
   (hasIndex cols m r (Highlight cols) \<and>
    Highlight cols \<noteq> SourceCodeColumn cols \<and> Highlight cols \<noteq> SourceCodeLineNumber cols \<and>
    role \<in> {DisplayRole, ToolTipRole, CostRole, TotalCostRole} \<and>
    INT_MIN \<le> r + m_lineOffset m \<and> r + m_lineOffset m \<le> INT_MAX \<longrightarrow>
      data cols fmt (updateHighlighting line m) \<lparr>row = r, column = Highlight cols\<rparr> role =
        Inr (VBool (r + m_lineOffset m = line)))"
  by (auto simp: updateHighlighting_def rowCount_def columnCount_def data_def hasIndex_def
        list_at_def int_add_def)

theorem updateHighlighting_frame_witness:
  "hasIndex ex_cols ex_shown 1 (Highlight ex_cols) \<and>
   Highlight ex_cols \<noteq> SourceCodeColumn ex_cols \<and>
   Highlight ex_cols \<noteq> SourceCodeLineNumber ex_cols \<and>
   DisplayRole \<in> {DisplayRole, ToolTipRole, CostRole, TotalCostRole} \<and>
   INT_MIN \<le> 1 + m_lineOffset ex_shown \<and> 1 + m_lineOffset ex_shown \<le> INT_MAX \<and>
   data ex_cols ex_format (updateHighlighting 2 ex_shown) \<lparr>row = 1, column = Highlight ex_cols\<rparr>
     DisplayRole = Inr (VBool True) \<and>
   data ex_cols ex_format (updateHighlighting 7 ex_shown) \<lparr>row = 1, column = Highlight ex_cols\<rparr>
     DisplayRole = Inr (VBool False) \<and>
   m_sourceCode (updateHighlighting 2 ex_shown) = m_sourceCode ex_shown"
proof -
  have hi: "hasIndex ex_cols ex_shown 1 (Highlight ex_cols)"
    by (simp add: hasIndex_def rowCount_def columnCount_def ex_shown_fields ex_cols_def)
  have cols: "Highlight ex_cols \<noteq> SourceCodeColumn ex_cols"
    "Highlight ex_cols \<noteq> SourceCodeLineNumber ex_cols"
    by (simp_all add: ex_cols_def)
  have rng: "INT_MIN \<le> 1 + m_lineOffset ex_shown" "1 + m_lineOffset ex_shown \<le> INT_MAX"
    by (simp_all add: ex_shown_fields INT_MIN_def INT_MAX_def)
  note inst = updateHighlighting_frame [where m = ex_shown and cols = ex_cols and r = 1
      and role = DisplayRole and fmt = ex_format]
  have role: "DisplayRole \<in> {DisplayRole, ToolTipRole, CostRole, TotalCostRole}"
    by simp
  from inst [where line = 2] hi cols rng role
  have a0: "data ex_cols ex_format (updateHighlighting 2 ex_shown) \<lparr>row = 1, column = Highlight ex_cols\<rparr>
     DisplayRole = Inr (VBool (1 + m_lineOffset ex_shown = 2))"
    and c: "m_sourceCode (updateHighlighting 2 ex_shown) = m_sourceCode ex_shown"
    by blast+
  from inst [where line = 7] hi cols rng role
  have b0: "data ex_cols ex_format (updateHighlighting 7 ex_shown) \<lparr>row = 1, column = Highlight ex_cols\<rparr>
     DisplayRole = Inr (VBool (1 + m_lineOffset ex_shown = 7))"
    by blast
  have a: "data ex_cols ex_format (updateHighlighting 2 ex_shown) \<lparr>row = 1, column = Highlight ex_cols\<rparr>
     DisplayRole = Inr (VBool True)"
    by (simp add: a0 ex_shown_fields)
  have b: "data ex_cols ex_format (updateHighlighting 7 ex_shown) \<lparr>row = 1, column = Highlight ex_cols\<rparr>
     DisplayRole = Inr (VBool False)"
    by (simp add: b0 ex_shown_fields)
  from a b c hi cols rng role show ?thesis
    by (intro conjI) (assumption | rule refl)+
qed

end
